theory Spec2Isabelle
  imports Main
begin

section \<open>Python text\<close>

text \<open>
  A Python \<open>str\<close> is a sequence of Unicode code points, so a text is a list of natural
  numbers (\<open>len\<close> is \<open>length\<close>). ASCII literals of the source are written \<open>u ''...''\<close>;
  a letter beyond ASCII is written as its code point.
\<close>

type_synonym ustring = "nat list"

definition u :: "string \<Rightarrow> ustring" where
  "u s = map of_char s"

definition is_ascii :: "nat \<Rightarrow> bool" where
  "is_ascii c = (c < 128)"

definition isspace :: "nat \<Rightarrow> bool" where
  \<comment> \<open>The code points that \<open>str.strip()\<close> removes and that \<open>\s\<close> matches in a \<open>str\<close> pattern.\<close>
  "isspace c =
     ((9 \<le> c \<and> c \<le> 13) \<or> (28 \<le> c \<and> c \<le> 32) \<or> c = 133 \<or> c = 160 \<or> c = 5760 \<or>
      (8192 \<le> c \<and> c \<le> 8202) \<or> c = 8232 \<or> c = 8233 \<or> c = 8239 \<or> c = 8287 \<or> c = 12288)"

definition strip :: "ustring \<Rightarrow> ustring" where
  \<comment> \<open>\<open>s.strip()\<close>\<close>
  "strip s = rev (dropWhile isspace (rev (dropWhile isspace s)))"

definition strip_chars :: "ustring \<Rightarrow> ustring \<Rightarrow> ustring" where
  \<comment> \<open>\<open>s.strip(chars)\<close>\<close>
  "strip_chars chars s =
     rev (dropWhile (\<lambda>c. c \<in> set chars) (rev (dropWhile (\<lambda>c. c \<in> set chars) s)))"

definition startswith :: "ustring \<Rightarrow> ustring \<Rightarrow> bool" where
  \<comment> \<open>\<open>s.startswith(p)\<close>\<close>
  "startswith s p = (take (length p) s = p)"

fun contains :: "ustring \<Rightarrow> ustring \<Rightarrow> bool" where
  \<comment> \<open>\<open>needle in s\<close>\<close>
  "contains needle [] = (needle = [])"
| "contains needle (c # cs) = (startswith (c # cs) needle \<or> contains needle cs)"

fun py_split :: "ustring \<Rightarrow> ustring \<Rightarrow> ustring list" where
  \<comment> \<open>\<open>s.split(sep)\<close>, for the non-empty literal separators of the source
      (Python raises ValueError on an empty one; here an empty one never splits).\<close>
  "py_split sep [] = [[]]"
| "py_split sep (c # cs) =
     (if sep \<noteq> [] \<and> startswith (c # cs) sep
      then [] # py_split sep (drop (length sep) (c # cs))
      else (case py_split sep cs of [] \<Rightarrow> [[c]] | p # ps \<Rightarrow> (c # p) # ps))"

fun py_replace :: "ustring \<Rightarrow> ustring \<Rightarrow> ustring \<Rightarrow> ustring" where
  \<comment> \<open>\<open>s.replace(old, new)\<close>, for the non-empty \<open>old\<close> of the source: every occurrence,
      left to right, without overlap, in one pass.\<close>
  "py_replace old new [] = []"
| "py_replace old new (c # cs) =
     (if old \<noteq> [] \<and> startswith (c # cs) old
      then new @ py_replace old new (drop (length old) (c # cs))
      else c # py_replace old new cs)"

fun join :: "ustring \<Rightarrow> ustring list \<Rightarrow> ustring" where
  \<comment> \<open>\<open>sep.join(parts)\<close>\<close>
  "join sep [] = []"
| "join sep [p] = p"
| "join sep (p # q # ps) = p @ sep @ join sep (q # ps)"

text \<open>
  The Unicode tables of the Python runtime are not part of the repository; the functions
  that consult them take them as a parameter: \<open>unicodedata.normalize("NFKD", _)\<close>,
  \<open>str.lower\<close>, and the decimal-digit property that \<open>\d\<close> tests beyond ASCII.
\<close>

record unicode =
  normalize_NFKD :: "ustring \<Rightarrow> ustring"
  str_lower :: "ustring \<Rightarrow> ustring"
  isdecimal :: "nat \<Rightarrow> bool"

definition ascii_fixed :: "unicode \<Rightarrow> bool" where
  \<comment> \<open>NFKD leaves a text of ASCII code points as it is (no ASCII code point decomposes).\<close>
  "ascii_fixed db = (\<forall>s. list_all is_ascii s \<longrightarrow> normalize_NFKD db s = s)"

text \<open>
  A fragment of the tables, for evaluating the functions on concrete texts: exact on
  texts made of ASCII, the accented letters of Slovak listed below, and code points
  that neither decompose, nor change case, nor are decimal digits (such as U+20AC, the
  euro sign). It lists no decimal digit beyond ASCII, so it is not exact on a text that
  has one.
\<close>

definition decompositions :: "(nat \<times> ustring) list" where
  "decompositions =
     [(193, [65, 769]), (196, [65, 776]), (201, [69, 769]), (205, [73, 769]),
      (211, [79, 769]), (212, [79, 770]), (218, [85, 769]), (221, [89, 769]),
      (225, [97, 769]), (228, [97, 776]), (233, [101, 769]), (237, [105, 769]),
      (243, [111, 769]), (244, [111, 770]), (250, [117, 769]), (253, [121, 769]),
      (268, [67, 780]), (269, [99, 780]), (270, [68, 780]), (271, [100, 780]),
      (313, [76, 769]), (314, [108, 769]), (317, [76, 780]), (318, [108, 780]),
      (327, [78, 780]), (328, [110, 780]), (340, [82, 769]), (341, [114, 769]),
      (352, [83, 780]), (353, [115, 780]), (356, [84, 780]), (357, [116, 780]),
      (381, [90, 780]), (382, [122, 780])]"

definition decompose :: "nat \<Rightarrow> ustring" where
  "decompose c = (case map_of decompositions c of None \<Rightarrow> [c] | Some d \<Rightarrow> d)"

definition latin_lower :: "nat \<Rightarrow> nat" where
  "latin_lower c =
     (if 65 \<le> c \<and> c \<le> 90 then c + 32
      else if c \<in> set [193, 196, 201, 205, 211, 212, 218, 221] then c + 32
      else if c \<in> set [268, 270, 313, 317, 327, 340, 352, 356, 381] then c + 1
      else c)"

definition latin_tables :: unicode where
  "latin_tables =
     \<lparr>normalize_NFKD = (\<lambda>s. concat (map decompose s)),
      str_lower = map latin_lower,
      isdecimal = (\<lambda>c. False)\<rparr>"

section \<open>Utility methods\<close>

definition convert_to_english :: "unicode \<Rightarrow> ustring option \<Rightarrow> ustring option" where
  \<comment> \<open>\<open>if not text: return None\<close>; NFKD; \<open>encode("ascii", "ignore").decode("ascii")\<close>\<close>
  "convert_to_english db text =
     (case text of
        None \<Rightarrow> None
      | Some t \<Rightarrow>
          if t = [] then None
          else Some (filter is_ascii (normalize_NFKD db t)))"

datatype py_exc =
  OSError | TypeError | ValueError | AttributeError | IndexError | RequestException
  | KeyboardInterrupt

fun is_Exception :: "py_exc \<Rightarrow> bool" where
  \<comment> \<open>what \<open>except Exception\<close> catches: every class above but KeyboardInterrupt,
      which derives from BaseException only\<close>
  "is_Exception KeyboardInterrupt = False"
| "is_Exception _ = True"

definition index0 :: "'a list \<Rightarrow> py_exc + 'a" where
  \<comment> \<open>\<open>xs[0]\<close>\<close>
  "index0 xs = (case xs of [] \<Rightarrow> Inl IndexError | x # _ \<Rightarrow> Inr x)"

subsection \<open>The document, as the queries of the source see it\<close>

text \<open>
  The HTML parser is not part of the repository. A document is what the queries of the
  source return on it: the \<open>div.form-group\<close> elements in document order, each with its
  first \<open>label\<close>, its first \<open>p.form-control-static\<close> and the \<open>href\<close> of its first anchor
  that has one; and the first \<open>table.table\<close>, with its first \<open>tbody\<close>, the \<open>tr\<close> rows
  of that and the \<open>td\<close> cells of each row. An element is the list of its text nodes.
\<close>

type_synonym element = "ustring list"

record form_group =
  fg_label :: "element option"
  fg_static :: "element option"
  fg_href :: "ustring option"

record soup =
  form_groups :: "form_group list"
  bo_table :: "element list list option option"

definition get_text :: "ustring \<Rightarrow> element \<Rightarrow> ustring" where
  \<comment> \<open>\<open>el.get_text(sep, strip=True)\<close>: the text nodes, each stripped, the empty ones dropped\<close>
  "get_text sep el = join sep (filter (\<lambda>t. t \<noteq> []) (map strip el))"

fun get_field :: "form_group list \<Rightarrow> ustring \<Rightarrow> ustring option" where
  "get_field [] label_text = None"
| "get_field (grp # groups) label_text =
     (case fg_label grp of
        None \<Rightarrow> get_field groups label_text
      | Some label \<Rightarrow>
          if contains label_text (get_text [] label)
          then (case fg_static grp of
                  None \<Rightarrow> get_field groups label_text
                | Some p \<Rightarrow> Some (get_text [] p))
          else get_field groups label_text)"

fun get_pdf_url :: "form_group list \<Rightarrow> ustring \<Rightarrow> ustring \<Rightarrow> ustring option" where
  "get_pdf_url [] label_text base_url = None"
| "get_pdf_url (grp # groups) label_text base_url =
     (case fg_label grp of
        None \<Rightarrow> get_pdf_url groups label_text base_url
      | Some label \<Rightarrow>
          if contains label_text (get_text [] label)
          then (case fg_href grp of
                  None \<Rightarrow> get_pdf_url groups label_text base_url
                | Some href \<Rightarrow> Some (base_url @ href))
          else get_pdf_url groups label_text base_url)"

subsection \<open>The beneficial-owner table\<close>

record bo_row =
  row_name :: "ustring option"
  row_date_of_birth :: "ustring option"
  row_nationality :: "ustring option"
  row_address :: "ustring option"

definition meno_a_priezvisko :: ustring where
  "meno_a_priezvisko = u ''Meno a priezvisko''"

definition datum_narodenia :: ustring where
  \<comment> \<open>the marker of line 104, whose second letter is U+00E1 (a with acute)\<close>
  "datum_narodenia = u ''D'' @ [225] @ u ''tum narodenia''"

definition parse_bo_row :: "unicode \<Rightarrow> element list \<Rightarrow> py_exc + bo_row option" where
  \<comment> \<open>one pass of the loop of lines 94-117: None for a row that is skipped\<close>
  "parse_bo_row db cols =
     (if length cols \<ge> 4 then
        let first_col = get_text (u '' '') (cols ! 0);
            first_col = (if startswith first_col meno_a_priezvisko
                         then strip (py_replace meno_a_priezvisko [] first_col)
                         else first_col)
        in case index0 (py_split datum_narodenia first_col) of
             Inl e \<Rightarrow> Inl e
           | Inr seg \<Rightarrow>
               Inr (Some \<lparr>row_name = convert_to_english db (Some (strip seg)),
                          row_date_of_birth = convert_to_english db (Some (get_text [] (cols ! 1))),
                          row_nationality = convert_to_english db (Some (get_text [] (cols ! 2))),
                          row_address = convert_to_english db (Some (get_text [] (cols ! 3)))\<rparr>)
      else Inr None)"

fun parse_bo_rows :: "unicode \<Rightarrow> element list list \<Rightarrow> bo_row list \<Rightarrow> py_exc + bo_row list" where
  "parse_bo_rows db [] bos = Inr bos"
| "parse_bo_rows db (row # rows) bos =
     (case parse_bo_row db row of
        Inl e \<Rightarrow> Inl e
      | Inr None \<Rightarrow> parse_bo_rows db rows bos
      | Inr (Some bo) \<Rightarrow> parse_bo_rows db rows (bos @ [bo]))"

definition parse_bo_table :: "unicode \<Rightarrow> soup \<Rightarrow> py_exc + bo_row list" where
  \<comment> \<open>\<open>bo_table.find("tbody")\<close> is None on a table without a tbody element, and
      \<open>None.find_all\<close> raises AttributeError\<close>
  "parse_bo_table db sp =
     (case bo_table sp of
        None \<Rightarrow> Inr []
      | Some None \<Rightarrow> Inl AttributeError
      | Some (Some rows) \<Rightarrow> parse_bo_rows db rows [])"


subsection \<open>The address parser\<close>

text \<open>A dict of the source is a map from its keys; a value is a text or None.\<close>

type_synonym address = "string \<rightharpoonup> ustring option"

definition dict_get :: "address \<Rightarrow> string \<Rightarrow> ustring option" where
  \<comment> \<open>\<open>d.get(key)\<close>: None for a missing key as for a key that holds None\<close>
  "dict_get d key = (case d key of None \<Rightarrow> None | Some v \<Rightarrow> v)"

definition countries :: "ustring list" where
  "countries =
     [u ''Slovenska republika'', u ''Turecka republika'', u ''Hongkong'',
      u ''Holandske kralovstvo'', u ''Polska republika'', u ''Kajmanie ostrovy'',
      u ''Rakuska republika'', u ''Talianska republika'', u ''Nemecka spolkova republika'',
      u ''Spojene staty americke'', u ''Spojene arabske emiraty'', u ''Ruska federacia'',
      u ''Kanada'', u ''Bosna a Hercegovina'', u ''Indicka republika'', u ''Ceska republika'']"

definition is_digit :: "unicode \<Rightarrow> nat \<Rightarrow> bool" where
  \<comment> \<open>\<open>\d\<close> in a \<open>str\<close> pattern: a decimal digit of any script\<close>
  "is_digit db c = ((48 \<le> c \<and> c \<le> 57) \<or> (128 \<le> c \<and> isdecimal db c))"

definition two_digits :: "unicode \<Rightarrow> ustring \<Rightarrow> (ustring \<times> ustring) option" where
  \<comment> \<open>\<open>\d{2}\<close> at the start: what it matches, and the rest\<close>
  "two_digits db s =
     (case s of
        d4 # d5 # rest \<Rightarrow>
          if is_digit db d4 \<and> is_digit db d5 then Some ([d4, d5], rest) else None
      | _ \<Rightarrow> None)"

definition zip_code_end :: "unicode \<Rightarrow> ustring \<Rightarrow> (ustring \<times> ustring) option" where
  \<comment> \<open>\<open>\s?\d{2}\<close> at the start: the greedy \<open>\s?\<close> takes a space first, and gives it
      back when no two digits follow it\<close>
  "zip_code_end db s =
     (case s of
        w # s' \<Rightarrow>
          if isspace w
          then (case two_digits db s' of
                  Some (m, rest) \<Rightarrow> Some (w # m, rest)
                | None \<Rightarrow> two_digits db s)
          else two_digits db s
      | [] \<Rightarrow> None)"

definition zip_match :: "unicode \<Rightarrow> ustring \<Rightarrow> (ustring \<times> ustring) option" where
  \<comment> \<open>\<open>re.match(r"(\d{3}\s?\d{2})\s*(.*)", s)\<close>: groups 1 and 2. After the code, \<open>\s*\<close>
      takes all the white space and \<open>.*\<close> everything up to the first line feed.\<close>
  "zip_match db s =
     (case s of
        d1 # d2 # d3 # s' \<Rightarrow>
          if is_digit db d1 \<and> is_digit db d2 \<and> is_digit db d3
          then (case zip_code_end db s' of
                  Some (m, rest) \<Rightarrow>
                    Some ([d1, d2, d3] @ m, takeWhile (\<lambda>c. c \<noteq> 10) (dropWhile isspace rest))
                | None \<Rightarrow> None)
          else None
      | _ \<Rightarrow> None)"

fun detect_country :: "unicode \<Rightarrow> ustring list \<Rightarrow> ustring \<Rightarrow> ustring option \<times> ustring" where
  \<comment> \<open>the loop of lines 151-155: \<open>country_found\<close> and \<open>city_country\<close> after it\<close>
  "detect_country db [] city_country = (None, city_country)"
| "detect_country db (c # cs) city_country =
     (if contains (str_lower db c) (str_lower db city_country)
      then (Some c, strip (strip_chars (u '', '') (py_replace c [] city_country)))
      else detect_country db cs city_country)"

definition fallback :: "ustring \<Rightarrow> address" where
  \<comment> \<open>line 165\<close>
  "fallback address =
     [''Address'' \<mapsto> Some address, ''PostalCode'' \<mapsto> None, ''City'' \<mapsto> None,
      ''Country'' \<mapsto> None]"

definition parse_address :: "unicode \<Rightarrow> ustring option \<Rightarrow> py_exc + address" where
  "parse_address db full_address =
     (case full_address of
        None \<Rightarrow> Inr Map.empty
      | Some full \<Rightarrow>
          if full = [] then Inr Map.empty
          else
            let address = strip full;
                parts = map strip (py_split (u '','') address)
            in if length parts \<ge> 2 then
                 (case index0 parts of
                    Inl e \<Rightarrow> Inl e
                  | Inr street_part \<Rightarrow>
                      (case zip_match db (join (u '', '') (drop 1 parts)) of
                         Some (g1, g2) \<Rightarrow>
                           let postal_code = strip g1;
                               (country_found, city_country) =
                                  detect_country db countries (strip g2)
                           in Inr [''Address'' \<mapsto> Some street_part,
                                   ''PostalCode'' \<mapsto> Some postal_code,
                                   ''City'' \<mapsto> (if city_country \<noteq> [] then Some city_country else None),
                                   ''Country'' \<mapsto>
                                      (case country_found of
                                         None \<Rightarrow> None
                                       | Some c \<Rightarrow> if c \<noteq> [] then Some c else None)]
                       | None \<Rightarrow> Inr (fallback address)))
               else Inr (fallback address))"

definition comma_segments :: "ustring \<Rightarrow> ustring list" where
  \<comment> \<open>the comma segments of step 2 of the parser: \<open>parts\<close> of line 137\<close>
  "comma_segments full = map strip (py_split (u '','') (strip full))"

definition zip_tail :: "ustring \<Rightarrow> ustring" where
  \<comment> \<open>the tail of step 4: \<open>zip_city_country\<close> of line 141\<close>
  "zip_tail full = join (u '', '') (drop 1 (comma_segments full))"

definition has_zip_prefix :: "unicode \<Rightarrow> ustring \<Rightarrow> bool" where
  \<comment> \<open>the pattern of step 5 in the words of the specification: three digits, an optional
      space, two digits, at the start\<close>
  "has_zip_prefix db s =
     (length s \<ge> 3 \<and> list_all (is_digit db) (take 3 s) \<and>
      (let r = drop 3 s in
         (length r \<ge> 2 \<and> list_all (is_digit db) (take 2 r)) \<or>
         (length r \<ge> 3 \<and> isspace (hd r) \<and> list_all (is_digit db) (take 2 (tl r)))))"

definition first_match :: "unicode \<Rightarrow> ustring \<Rightarrow> ustring option" where
  \<comment> \<open>the gazetteer-matched country of step 7: the first country of the list that the
      text contains, case set aside\<close>
  "first_match db city_country =
     find (\<lambda>c. contains (str_lower db c) (str_lower db city_country)) countries"

section \<open>Core scraping logic\<close>

record bo =
  name_and_surname :: "ustring option"
  date_of_birth :: "ustring option"
  nationality :: "ustring option"
  address_of_the_bo :: address

record partner =
  business_name :: "ustring option"
  ico :: "ustring option"
  business_address :: address
  verification_date :: "ustring option"
  verification_document_url :: "ustring option"
  beneficial_owners :: "bo list"
  source_url :: ustring

text \<open>
  What the scraper reaches outside the repository: the Unicode tables, the HTTP client
  (the status code and the text of the response, or the exception it raises), the HTML
  parser, and the two file writes of the loop (lines 232-234 and 237-238: None when the
  file is written, the exception otherwise).
\<close>

record env =
  tables :: unicode
  requests_get :: "ustring \<Rightarrow> py_exc + (nat \<times> ustring)"
  BeautifulSoup :: "ustring option \<Rightarrow> py_exc + soup"
  write_cache :: "ustring set \<Rightarrow> py_exc option"
  write_output :: "partner list \<Rightarrow> py_exc option"

record scraper =
  start_id :: int
  end_id :: int
  all_data :: "partner list"
  processed_ids :: "ustring set"

definition BASE_URL :: ustring where
  "BASE_URL = u ''https://rpvs.gov.sk/rpvs/Partner/Partner/Detail/''"

function str_nat :: "nat \<Rightarrow> ustring" where
  "str_nat n = (if n < 10 then [48 + n] else str_nat (n div 10) @ [48 + n mod 10])"
  by pat_completeness auto
termination
  by (relation "measure id") auto

declare str_nat.simps [simp del]

definition str_int :: "int \<Rightarrow> ustring" where
  \<comment> \<open>the decimal text of an integer, as an f-string renders it\<close>
  "str_int i = (if i < 0 then 45 # str_nat (nat (- i)) else str_nat (nat i))"

definition partner_url :: "int \<Rightarrow> ustring" where
  "partner_url partner_id = BASE_URL @ str_int partner_id"

fun parse_bo_addresses :: "unicode \<Rightarrow> bo_row list \<Rightarrow> py_exc + bo list" where
  \<comment> \<open>the loop of lines 197-199, which replaces each owner's address text by its parse\<close>
  "parse_bo_addresses db [] = Inr []"
| "parse_bo_addresses db (b # bs) =
     (case parse_address db (row_address b) of
        Inl e \<Rightarrow> Inl e
      | Inr a \<Rightarrow>
          (case parse_bo_addresses db bs of
             Inl e \<Rightarrow> Inl e
           | Inr bs' \<Rightarrow>
               Inr (\<lparr>name_and_surname = row_name b, date_of_birth = row_date_of_birth b,
                     nationality = row_nationality b, address_of_the_bo = a\<rparr> # bs')))"

definition adresa_sidla :: ustring where
  "adresa_sidla = u ''Adresa s'' @ [237] @ u ''dla''"

definition obchodne_meno :: ustring where
  "obchodne_meno = u ''Obchodn'' @ [233] @ u '' meno''"

definition ico_label :: ustring where
  "ico_label = u ''I'' @ [268] @ u ''O''"

definition datum_overenia :: ustring where
  "datum_overenia = u ''D'' @ [225] @ u ''tum overenia''"

definition verifikacny_dokument :: ustring where
  "verifikacny_dokument = u ''Verifika'' @ [269] @ u ''n'' @ [253] @ u '' dokument (pdf)''"

definition scrape_partner :: "env \<Rightarrow> int \<Rightarrow> py_exc + partner option" where
  "scrape_partner e partner_id =
     (let url = partner_url partner_id; db = tables e in
      case requests_get e url of
        Inl x \<Rightarrow> Inl x
      | Inr (status_code, text) \<Rightarrow>
          if status_code \<noteq> 200 then Inr None
          else
            (case BeautifulSoup e (convert_to_english db (Some text)) of
               Inl x \<Rightarrow> Inl x
             | Inr sp \<Rightarrow>
                 (case parse_bo_table db sp of
                    Inl x \<Rightarrow> Inl x
                  | Inr bos \<Rightarrow>
                      if bos = [] then Inr None
                      else
                        (case parse_address db
                                (convert_to_english db (get_field (form_groups sp) adresa_sidla)) of
                           Inl x \<Rightarrow> Inl x
                         | Inr parsed_business_address \<Rightarrow>
                             (case parse_bo_addresses db bos of
                                Inl x \<Rightarrow> Inl x
                              | Inr bos' \<Rightarrow>
                                  Inr (Some
                                    \<lparr>business_name = convert_to_english db
                                        (get_field (form_groups sp) obchodne_meno),
                                     ico = convert_to_english db
                                        (get_field (form_groups sp) ico_label),
                                     business_address = parsed_business_address,
                                     verification_date = convert_to_english db
                                        (get_field (form_groups sp) datum_overenia),
                                     verification_document_url = convert_to_english db
                                        (get_pdf_url (form_groups sp) verifikacny_dokument
                                           (u ''https://rpvs.gov.sk'')),
                                     beneficial_owners = bos',
                                     source_url = url\<rparr>))))))"

definition try_block :: "env \<Rightarrow> scraper \<Rightarrow> int \<Rightarrow> ustring \<Rightarrow> py_exc option \<times> scraper" where
  \<comment> \<open>lines 226-240: the exception that leaves the block, if any, and the scraper as the
      block left it (\<open>time.sleep\<close> changes nothing)\<close>
  "try_block e self partner_id url =
     (case scrape_partner e partner_id of
        Inl x \<Rightarrow> (Some x, self)
      | Inr None \<Rightarrow> (None, self)
      | Inr (Some data) \<Rightarrow>
          let self = self\<lparr>all_data := all_data self @ [data]\<rparr>;
              self = self\<lparr>processed_ids := insert url (processed_ids self)\<rparr>
          in case write_cache e (processed_ids self) of
               Some x \<Rightarrow> (Some x, self)
             | None \<Rightarrow>
                 (case write_output e (all_data self) of
                    Some x \<Rightarrow> (Some x, self)
                  | None \<Rightarrow> (None, self)))"

definition run_step :: "env \<Rightarrow> scraper \<Rightarrow> int \<Rightarrow> py_exc option \<times> scraper" where
  \<comment> \<open>one pass of the loop of \<open>run\<close>: the exception that leaves the loop, if any\<close>
  "run_step e self partner_id =
     (let url = partner_url partner_id in
      if url \<in> processed_ids self then (None, self)
      else
        (case try_block e self partner_id url of
           (None, self') \<Rightarrow> (None, self')
         | (Some x, self') \<Rightarrow> if is_Exception x then (None, self') else (Some x, self')))"

fun run_loop :: "env \<Rightarrow> scraper \<Rightarrow> int list \<Rightarrow> py_exc option \<times> scraper" where
  "run_loop e self [] = (None, self)"
| "run_loop e self (partner_id # ids) =
     (case run_step e self partner_id of
        (None, self') \<Rightarrow> run_loop e self' ids
      | (Some x, self') \<Rightarrow> (Some x, self'))"

definition run :: "env \<Rightarrow> scraper \<Rightarrow> py_exc option \<times> scraper" where
  \<comment> \<open>\<open>for partner_id in range(self.start, self.end+1)\<close>\<close>
  "run e self = run_loop e self [start_id self..end_id self]"

definition cache_inv :: "scraper \<Rightarrow> bool" where
  \<comment> \<open>every URL of the cache is the source URL of a record of the collection\<close>
  "cache_inv self = (\<forall>url \<in> processed_ids self. \<exists>r \<in> set (all_data self). source_url r = url)"

definition init :: "int \<Rightarrow> int \<Rightarrow> partner list option \<Rightarrow> ustring list option \<Rightarrow> scraper" where
  \<comment> \<open>the constructor, lines 25-46: the collection is what the output file holds and the
      cache what the cache file holds, each file read on its own, and empty when the file
      does not exist (None)\<close>
  "init a b output_file cache_file =
     \<lparr>start_id = a, end_id = b,
      all_data = (case output_file of None \<Rightarrow> [] | Some data \<Rightarrow> data),
      processed_ids = (case cache_file of None \<Rightarrow> {} | Some urls \<Rightarrow> set urls)\<rparr>"

definition cached_with_record :: "ustring set \<Rightarrow> scraper \<Rightarrow> bool" where
  \<comment> \<open>every URL of the cache is one of \<open>old\<close> or the source URL of a record\<close>
  "cached_with_record old self =
     (\<forall>url \<in> processed_ids self. url \<in> old \<or> (\<exists>r \<in> set (all_data self). source_url r = url))"

subsection \<open>A small run, for evaluating the loop\<close>

text \<open>
  One page with a single owner row and one page without an owner table; an environment
  that serves a page for every ID and whose cache write fails or not; a scraper that
  starts with an empty collection and an empty cache.
\<close>

definition owner_row :: "element list" where
  "owner_row =
     [[u ''Meno a priezvisko Jan Novak Datum narodenia 1.1.1980''], [u ''1.1.1980''],
      [u ''Slovenska republika''], [u ''Hlavna 1, 811 01 Bratislava, Slovenska republika'']]"

definition page_with_owner :: soup where
  "page_with_owner = \<lparr>form_groups = [], bo_table = Some (Some [owner_row])\<rparr>"

definition page_without_table :: soup where
  "page_without_table = \<lparr>form_groups = [], bo_table = None\<rparr>"



definition demo_env :: "py_exc option \<Rightarrow> soup \<Rightarrow> env" where
  "demo_env cache_failure page =
     \<lparr>tables = latin_tables,
      requests_get = (\<lambda>url. Inr (200, u ''<html></html>'')),
      BeautifulSoup = (\<lambda>html. Inr page),
      write_cache = (\<lambda>urls. cache_failure),
      write_output = (\<lambda>data. None)\<rparr>"

definition fresh :: "int \<Rightarrow> int \<Rightarrow> scraper" where
  "fresh a b = \<lparr>start_id = a, end_id = b, all_data = [], processed_ids = {}\<rparr>"

definition demo_record :: "int \<Rightarrow> partner" where
  "demo_record partner_id =
     \<lparr>business_name = None, ico = None, business_address = Map.empty,
      verification_date = None, verification_document_url = None,
      beneficial_owners =
        [\<lparr>name_and_surname = Some (u ''Jan Novak Datum narodenia 1.1.1980''),
          date_of_birth = Some (u ''1.1.1980''),
          nationality = Some (u ''Slovenska republika''),
          address_of_the_bo =
            [''Address'' \<mapsto> Some (u ''Hlavna 1''), ''PostalCode'' \<mapsto> Some (u ''811 01''),
             ''City'' \<mapsto> Some (u ''Bratislava''),
             ''Country'' \<mapsto> Some (u ''Slovenska republika'')]\<rparr>],
      source_url = partner_url partner_id\<rparr>"

section \<open>The text normalizer\<close>

lemmas text_eval = u_def strip_def strip_chars_def isspace_def startswith_def

lemma filter_all_ascii: "list_all is_ascii (filter is_ascii s)"
  by (simp add: list_all_iff)

lemma decompose_ascii: "is_ascii c \<Longrightarrow> decompose c = [c]"
proof -
  assume a: "is_ascii c"
  have "c \<notin> fst ` set decompositions"
    using a by (auto simp: decompositions_def is_ascii_def)
  then have "map_of decompositions c = None"
    by (simp add: map_of_eq_None_iff)
  then show ?thesis by (simp add: decompose_def)
qed

lemma latin_tables_ascii_fixed: "ascii_fixed latin_tables"
proof -
  have "list_all is_ascii s \<Longrightarrow> concat (map decompose s) = s" for s
    by (induction s) (simp_all add: decompose_ascii)
  then show ?thesis
    by (simp add: ascii_fixed_def latin_tables_def)
qed

lemma latin_nfkd_keeps_ascii:
  "c \<in> set T \<Longrightarrow> is_ascii c \<Longrightarrow> c \<in> set (normalize_NFKD latin_tables T)"
  by (auto simp: latin_tables_def decompose_ascii intro!: bexI [of _ c])

lemma euro_sign: "convert_to_english latin_tables (Some [8364]) = Some []"
  by (simp add: convert_to_english_def latin_tables_def decompose_def decompositions_def
      is_ascii_def)

text \<open>
  C1, as stated: the normalizer is idempotent on every text. It is not: the euro sign
  (U+20AC) has no ASCII part, so its normalization is the empty text, and the
  normalization of the empty text is null.
\<close>

theorem convert_to_english_not_idempotent:
  "convert_to_english latin_tables (convert_to_english latin_tables (Some [8364]))
     \<noteq> convert_to_english latin_tables (Some [8364])"
  by (simp add: euro_sign) (simp add: convert_to_english_def)

text \<open>
  C1, amended: the normalizer maps null to null, and normalizing twice gives the same as
  normalizing once for every text whose normalization is not the empty text; where the
  normalization is the empty text, normalizing again gives null.
\<close>

theorem convert_to_english_idempotent:
  assumes "ascii_fixed db"
  shows "convert_to_english db None = None \<and>
         (convert_to_english db T \<noteq> Some [] \<longrightarrow>
            convert_to_english db (convert_to_english db T) = convert_to_english db T) \<and>
         (convert_to_english db T = Some [] \<longrightarrow>
            convert_to_english db (convert_to_english db T) = None)"
proof -
  have fixed: "normalize_NFKD db (filter is_ascii s) = filter is_ascii s" for s
    using assms filter_all_ascii [of s] by (simp add: ascii_fixed_def)
  show ?thesis
    by (cases T) (simp_all add: convert_to_english_def fixed)
qed

theorem convert_to_english_idempotent_witness:
  "ascii_fixed latin_tables \<and>
   convert_to_english latin_tables (Some (u ''Nov'' @ [225] @ u ''k'')) = Some (u ''Novak'') \<and>
   convert_to_english latin_tables (Some (u ''Novak'')) = Some (u ''Novak'') \<and>
   convert_to_english latin_tables (convert_to_english latin_tables (Some [8364])) = None"
proof -
  let ?T = "Some (u ''Nov'' @ [225] @ u ''k'')"
  have n: "convert_to_english latin_tables ?T = Some (u ''Novak'')"
    by (simp add: convert_to_english_def latin_tables_def decompose_def decompositions_def
        is_ascii_def u_def)
  have "convert_to_english latin_tables (convert_to_english latin_tables ?T)
          = convert_to_english latin_tables ?T"
    using convert_to_english_idempotent [OF latin_tables_ascii_fixed, of ?T] n
    by (simp add: u_def)
  moreover have "convert_to_english latin_tables (convert_to_english latin_tables (Some [8364])) = None"
    using convert_to_english_idempotent [OF latin_tables_ascii_fixed, of "Some [8364]"] euro_sign
    by simp
  ultimately show ?thesis
    using n latin_tables_ascii_fixed by simp
qed

text \<open>
  C10, as stated: a non-null result of the normalizer is a non-empty text, or the
  normalization of a text with some ASCII character. The normalization of the euro sign
  is non-null and empty, and no text with an ASCII character normalizes to the empty text.
\<close>

theorem convert_to_english_empty_result:
  "convert_to_english latin_tables (Some [8364]) = Some [] \<and>
   \<not> (\<exists>T. (\<exists>c \<in> set T. is_ascii c) \<and> convert_to_english latin_tables (Some T) = Some [])"
proof -
  have "convert_to_english latin_tables (Some T) \<noteq> Some []" if "c \<in> set T" "is_ascii c" for T c
  proof -
    have "c \<in> set (filter is_ascii (normalize_NFKD latin_tables T))"
      using that latin_nfkd_keeps_ascii by simp
    then have "filter is_ascii (normalize_NFKD latin_tables T) \<noteq> []"
      by (metis empty_iff empty_set)
    then show ?thesis
      by (simp add: convert_to_english_def)
  qed
  then show ?thesis
    using euro_sign by blast
qed

text \<open>
  C10, amended: the normalizer maps null and the empty text to null; a non-null result
  is the ASCII part of the NFKD form of a non-empty text, and it is non-empty exactly when
  that NFKD form has some ASCII character (otherwise it is the empty text, not null).
\<close>

theorem convert_to_english_falsy:
  "convert_to_english db None = None \<and>
   convert_to_english db (Some []) = None \<and>
   (convert_to_english db x = Some r \<longrightarrow>
      (\<exists>T. x = Some T \<and> T \<noteq> [] \<and> r = filter is_ascii (normalize_NFKD db T) \<and>
           list_all is_ascii r \<and>
           (r \<noteq> [] \<longleftrightarrow> (\<exists>c \<in> set (normalize_NFKD db T). is_ascii c))))"
  by (cases x) (auto simp: convert_to_english_def filter_empty_conv list_all_iff)

theorem convert_to_english_falsy_witness:
  "convert_to_english latin_tables (Some [8364]) = Some [] \<and>
   \<not> (\<exists>c \<in> set (normalize_NFKD latin_tables [8364]). is_ascii c)"
  using convert_to_english_falsy [of latin_tables "Some [8364]" "[]"] euro_sign
  by simp

section \<open>The address parser\<close>

lemma two_digits_None_iff:
  "two_digits db r = None \<longleftrightarrow> \<not> (length r \<ge> 2 \<and> list_all (is_digit db) (take 2 r))"
  by (auto simp: two_digits_def split: list.splits)

lemma zip_code_end_None_iff:
  "zip_code_end db r = None \<longleftrightarrow>
     \<not> ((length r \<ge> 2 \<and> list_all (is_digit db) (take 2 r)) \<or>
        (length r \<ge> 3 \<and> isspace (hd r) \<and> list_all (is_digit db) (take 2 (tl r))))"
proof (cases r)
  case Nil
  then show ?thesis by (simp add: zip_code_end_def)
next
  case (Cons w r')
  show ?thesis
  proof (cases "two_digits db r'")
    case None
    then have "\<not> (length r' \<ge> 2 \<and> list_all (is_digit db) (take 2 r'))"
      by (simp add: two_digits_None_iff)
    then show ?thesis
      using Cons None two_digits_None_iff [of db r]
      by (auto simp: zip_code_end_def)
  next
    case (Some m)
    then have "length r' \<ge> 2 \<and> list_all (is_digit db) (take 2 r')"
      using two_digits_None_iff [of db r'] by auto
    then show ?thesis
      using Cons Some two_digits_None_iff [of db r]
      by (auto simp: zip_code_end_def split: prod.splits)
  qed
qed

lemma zip_match_None_iff: "zip_match db s = None \<longleftrightarrow> \<not> has_zip_prefix db s"
proof -
  consider "length s < 3" | d1 d2 d3 r where "s = d1 # d2 # d3 # r"
    by (cases s rule: list.exhaust; simp; (rename_tac a l, case_tac l; simp; (rename_tac b m, case_tac m; simp)))
  then show ?thesis
  proof cases
    case 1
    then show ?thesis
      by (auto simp: zip_match_def has_zip_prefix_def split: list.splits)
  next
    case 2
    then show ?thesis
      using zip_code_end_None_iff [of db r]
      by (auto simp: zip_match_def has_zip_prefix_def Let_def split: option.splits)
  qed
qed

lemma py_split_no_sep: "c \<notin> set s \<Longrightarrow> py_split [c] s = [s]"
  by (induction s) (auto simp: startswith_def)

lemma set_strip: "set (strip s) \<subseteq> set s"
proof -
  have "set (strip s) \<subseteq> set (dropWhile isspace s)"
    unfolding strip_def using set_dropWhileD by fastforce
  then show ?thesis
    using set_dropWhileD by fastforce
qed

lemma trim_id:
  assumes "s = [] \<or> (\<not> P (hd s) \<and> \<not> P (last s))"
  shows "rev (dropWhile P (rev (dropWhile P s))) = s"
proof (cases "s = []")
  case True
  then show ?thesis by simp
next
  case False
  with assms have h: "\<not> P (hd s)" and l: "\<not> P (last s)" by auto
  have 1: "dropWhile P s = s"
    using h by (simp add: dropWhile_eq_self_iff)
  have "hd (rev s) = last s"
    using False by (simp add: hd_rev)
  then have 2: "dropWhile P (rev s) = rev s"
    using l by (simp add: dropWhile_eq_self_iff)
  show ?thesis by (simp add: 1 2)
qed

lemma last_dropWhile: "dropWhile P xs \<noteq> [] \<Longrightarrow> last (dropWhile P xs) = last xs"
  by (metis last_appendR takeWhile_dropWhile_id)

lemma trim_trimmed:
  "rev (dropWhile P (rev (dropWhile P s))) = [] \<or>
   (\<not> P (hd (rev (dropWhile P (rev (dropWhile P s))))) \<and>
    \<not> P (last (rev (dropWhile P (rev (dropWhile P s))))))"
proof (cases "dropWhile P (rev (dropWhile P s)) = []")
  case True
  then show ?thesis by simp
next
  case False
  let ?t = "dropWhile P s"
  let ?w = "dropWhile P (rev ?t)"
  have t: "?t \<noteq> []"
  proof
    assume "?t = []"
    then have "?w = []" by (simp only: rev.simps dropWhile.simps)
    with False show False by simp
  qed
  have "last ?w = last (rev ?t)"
    using False by (rule last_dropWhile)
  also have "\<dots> = hd ?t" using t by (simp add: last_rev)
  finally have "hd (rev ?w) = hd ?t"
    using False by (simp add: hd_rev)
  moreover have "\<not> P (hd ?t)" using t by (rule hd_dropWhile)
  moreover have "last (rev ?w) = hd ?w" using False by (simp add: last_rev)
  moreover have "\<not> P (hd ?w)" using False by (rule hd_dropWhile)
  ultimately show ?thesis by simp
qed

lemma strip_idem: "strip (strip s) = strip s"
  unfolding strip_def [of "strip s"]
  by (rule trim_id) (use trim_trimmed [of isspace s] in \<open>simp add: strip_def\<close>)

lemma comma_segments_single: "44 \<notin> set full \<Longrightarrow> comma_segments full = [strip full]"
proof -
  assume "44 \<notin> set full"
  then have "44 \<notin> set (strip full)" using set_strip by blast
  then have "py_split (u '','') (strip full) = [strip full]"
    by (simp add: u_def py_split_no_sep)
  then show ?thesis
    by (simp add: comma_segments_def strip_idem)
qed

lemma parse_address_returns: "\<exists>a. parse_address db x = Inr a"
  by (auto simp: parse_address_def Let_def index0_def split: option.splits list.splits prod.splits)

text \<open>
  C6: on a non-null, non-empty text the address parser returns (it raises nothing), and
  when the text has fewer than two comma segments (as when it has no comma at all), or
  its tail does not start with the postal-code pattern, the result has the stripped text
  as Address and None as PostalCode, City and Country.
\<close>

theorem parse_address_fallback:
  assumes "full \<noteq> []"
  shows "(\<exists>a. parse_address db (Some full) = Inr a) \<and>
         (length (comma_segments full) < 2 \<or> \<not> has_zip_prefix db (zip_tail full) \<longrightarrow>
            parse_address db (Some full) =
              Inr [''Address'' \<mapsto> Some (strip full), ''PostalCode'' \<mapsto> None,
                   ''City'' \<mapsto> None, ''Country'' \<mapsto> None]) \<and>
         (44 \<notin> set full \<longrightarrow> length (comma_segments full) < 2)"
proof (intro conjI impI)
  show "\<exists>a. parse_address db (Some full) = Inr a"
    by (rule parse_address_returns)
next
  assume "length (comma_segments full) < 2 \<or> \<not> has_zip_prefix db (zip_tail full)"
  then have "length (comma_segments full) < 2 \<or> zip_match db (zip_tail full) = None"
    by (simp add: zip_match_None_iff)
  then show "parse_address db (Some full) =
      Inr [''Address'' \<mapsto> Some (strip full), ''PostalCode'' \<mapsto> None,
           ''City'' \<mapsto> None, ''Country'' \<mapsto> None]"
    using assms
    by (auto simp: parse_address_def Let_def comma_segments_def zip_tail_def fallback_def
        index0_def split: list.splits)
next
  assume "44 \<notin> set full"
  then show "length (comma_segments full) < 2"
    by (simp add: comma_segments_single)
qed

theorem parse_address_fallback_witness:
  "u ''A, B, 811 01 X'' \<noteq> [] \<and>
   \<not> has_zip_prefix latin_tables (zip_tail (u ''A, B, 811 01 X'')) \<and>
   parse_address latin_tables (Some (u ''A, B, 811 01 X'')) =
     Inr [''Address'' \<mapsto> Some (u ''A, B, 811 01 X''), ''PostalCode'' \<mapsto> None,
          ''City'' \<mapsto> None, ''Country'' \<mapsto> None] \<and>
   44 \<notin> set (u ''  OnlyOne '') \<and>
   parse_address latin_tables (Some (u ''  OnlyOne '')) =
     Inr [''Address'' \<mapsto> Some (u ''OnlyOne''), ''PostalCode'' \<mapsto> None,
          ''City'' \<mapsto> None, ''Country'' \<mapsto> None]"
proof -
  have ne: "u ''A, B, 811 01 X'' \<noteq> []" "u ''  OnlyOne '' \<noteq> []"
    by (simp_all add: u_def)
  have z: "\<not> has_zip_prefix latin_tables (zip_tail (u ''A, B, 811 01 X''))"
    by (simp add: text_eval has_zip_prefix_def zip_tail_def comma_segments_def is_digit_def
        latin_tables_def)
  have s1: "strip (u ''A, B, 811 01 X'') = u ''A, B, 811 01 X''"
    by (simp add: text_eval)
  have c: "44 \<notin> set (u ''  OnlyOne '')"
    by (simp add: u_def)
  have s2: "strip (u ''  OnlyOne '') = u ''OnlyOne''"
    by (simp add: text_eval)
  show ?thesis
    using parse_address_fallback [OF ne(1), of latin_tables]
      parse_address_fallback [OF ne(2), of latin_tables] ne z c
    by (simp add: s1 s2)
qed

text \<open>
  C3: on null and on the empty text the address parser returns the same value, the
  empty dict, in which Address, PostalCode, City and Country all read as None.
\<close>

theorem parse_address_empty:
  "parse_address db (Some []) = parse_address db None \<and>
   parse_address db None = Inr Map.empty \<and>
   map_sum id (\<lambda>a. map (dict_get a) [''Address'', ''PostalCode'', ''City'', ''Country''])
     (parse_address db None) = Inr [None, None, None, None] \<and>
   map_sum id (\<lambda>a. map (dict_get a) [''Address'', ''PostalCode'', ''City'', ''Country''])
     (parse_address db (Some [])) = Inr [None, None, None, None]"
  by (simp add: parse_address_def dict_get_def)

lemmas parse_eval = parse_address_def index0_def zip_match_def zip_code_end_def two_digits_def
  is_digit_def countries_def latin_tables_def latin_lower_def

text \<open>
  C4, at the address "Hlavna 1, 811 01 Bratislava, SLOVENSKA REPUBLIKA": the scan matches
  the first country of the list without regard to case and sets Country, but the removal
  of line 154 compares case, removes nothing, and City keeps the text of the country.
\<close>

theorem parse_address_keeps_country_in_city:
  "parse_address latin_tables (Some (u ''Hlavna 1, 811 01 Bratislava, SLOVENSKA REPUBLIKA'')) =
     Inr [''Address'' \<mapsto> Some (u ''Hlavna 1''), ''PostalCode'' \<mapsto> Some (u ''811 01''),
          ''City'' \<mapsto> Some (u ''Bratislava, SLOVENSKA REPUBLIKA''),
          ''Country'' \<mapsto> Some (u ''Slovenska republika'')]"
  by (simp add: parse_eval text_eval)

text \<open>
  C5, as stated: every address text "line, zip city, Country" with a country of the list
  is split into exactly these four parts. Two texts of that form are not: with the city
  Hongkong in the country Hongkong the city is removed together with the country and City
  is None; with the city Hongkong in the country Kanada the scan stops at Hongkong,
  which is earlier in the list, and City and Country are exchanged.
\<close>

theorem parse_address_form_fails:
  "u ''Hongkong'' \<in> set countries \<and> u ''Kanada'' \<in> set countries \<and>
   parse_address latin_tables
     (Some (u ''Queens Road 1'' @ u '', '' @ u ''999'' @ u '' '' @ u ''77'' @ u '' '' @
            u ''Hongkong'' @ u '', '' @ u ''Hongkong'')) =
     Inr [''Address'' \<mapsto> Some (u ''Queens Road 1''), ''PostalCode'' \<mapsto> Some (u ''999 77''),
          ''City'' \<mapsto> None, ''Country'' \<mapsto> Some (u ''Hongkong'')] \<and>
   parse_address latin_tables
     (Some (u ''Nathan Road 1'' @ u '', '' @ u ''999'' @ u '' '' @ u ''77'' @ u '' '' @
            u ''Hongkong'' @ u '', '' @ u ''Kanada'')) =
     Inr [''Address'' \<mapsto> Some (u ''Nathan Road 1''), ''PostalCode'' \<mapsto> Some (u ''999 77''),
          ''City'' \<mapsto> Some (u ''Kanada''), ''Country'' \<mapsto> Some (u ''Hongkong'')]"
  by (simp add: parse_eval text_eval)

lemma py_split_comma: "c \<notin> set a \<Longrightarrow> py_split [c] (a @ c # b) = a # py_split [c] b"
  by (induction a) (auto simp: startswith_def)

lemma strip_id: "s = [] \<or> (\<not> isspace (hd s) \<and> \<not> isspace (last s)) \<Longrightarrow> strip s = s"
  unfolding strip_def by (rule trim_id)

lemma strip_fixed_ends:
  assumes "strip s = s" "s \<noteq> []"
  shows "\<not> isspace (hd s)" "\<not> isspace (last s)"
proof -
  have e: "rev (dropWhile isspace (rev (dropWhile isspace s))) = s"
    using assms(1) by (simp only: strip_def)
  have "s = [] \<or> (\<not> isspace (hd s) \<and> \<not> isspace (last s))"
    using trim_trimmed [of isspace s] by (simp only: e)
  then show "\<not> isspace (hd s)" "\<not> isspace (last s)"
    using assms(2) by simp_all
qed

lemma strip_space: "isspace c \<Longrightarrow> strip (c # s) = strip s"
  by (simp add: strip_def)

lemma trim_append_right:
  assumes "s \<noteq> []" "\<not> P (hd s)" "\<not> P (last s)" "list_all P t"
  shows "rev (dropWhile P (rev (dropWhile P (s @ t)))) = s"
proof -
  have 1: "dropWhile P (s @ t) = s @ t"
    using assms(1,2) by (simp add: dropWhile_eq_self_iff)
  have "dropWhile P (rev t @ rev s) = dropWhile P (rev s)"
    using assms(4) by (simp add: dropWhile_append list_all_iff)
  moreover have "dropWhile P (rev s) = rev s"
    using assms(1,3) by (simp add: dropWhile_eq_self_iff hd_rev)
  ultimately show ?thesis by (simp add: 1)
qed

lemma take_append_short: "n \<le> length a \<Longrightarrow> take n (a @ b) = take n a"
  by simp

lemma take_append_long: "length a < n \<Longrightarrow> c \<in> set (take n (a @ c # b))"
  by (simp add: take_Cons')

lemma py_replace_skip:
  assumes "old \<noteq> []" "c \<notin> set old" "\<not> contains old a"
  shows "py_replace old [] (a @ c # b) = a @ c # py_replace old [] b"
  using assms(3)
proof (induction a)
  case Nil
  have "\<not> startswith (c # b) old"
  proof
    assume "startswith (c # b) old"
    then have "hd old = c" using assms(1) by (cases old) (auto simp: startswith_def)
    then show False using assms(1,2) by (cases old) auto
  qed
  then show ?case by simp
next
  case (Cons x a)
  have n: "\<not> startswith (x # a @ c # b) old"
  proof
    assume s: "startswith (x # a @ c # b) old"
    show False
    proof (cases "length old \<le> length (x # a)")
      case True
      then have "startswith (x # a) old"
        using s take_append_short [of "length old" "x # a" "c # b"]
        by (simp add: startswith_def)
      then show False using Cons.prems by simp
    next
      case False
      then have "c \<in> set (take (length old) ((x # a) @ c # b))"
        by (intro take_append_long) simp
      then show False using s assms(2) by (simp add: startswith_def)
    qed
  qed
  have "\<not> contains old a" using Cons.prems by simp
  then show ?case using Cons.IH n by simp
qed

lemma py_replace_self: "old \<noteq> [] \<Longrightarrow> py_replace old [] old = []"
  by (cases old) (simp_all add: startswith_def)

lemma py_replace_space_self:
  "old \<noteq> [] \<Longrightarrow> hd old \<noteq> c \<Longrightarrow> py_replace old [] (c # old) = [c]"
proof -
  assume a: "old \<noteq> []" "hd old \<noteq> c"
  have "\<not> startswith (c # old) old"
    using a by (cases old) (auto simp: startswith_def)
  then show ?thesis using a by (simp add: py_replace_self)
qed

lemma detect_country_find:
  "find (\<lambda>c. contains (str_lower db c) (str_lower db city_country)) cs = Some c \<Longrightarrow>
   detect_country db cs city_country =
     (Some c, strip (strip_chars (u '', '') (py_replace c [] city_country)))"
  by (induction cs) (auto split: if_splits)

lemma countries_shape:
  "list_all (\<lambda>c. c \<noteq> [] \<and> 44 \<notin> set c \<and> 10 \<notin> set c \<and> hd c \<noteq> 32 \<and>
                 \<not> isspace (hd c) \<and> \<not> isspace (last c)) countries"
  by (simp add: countries_def u_def isspace_def)

text \<open>
  C5, amended: take an address text "line, zip city, Country" in which line and city are
  stripped and have no comma, city is not empty, has no line feed and does not contain the
  text of Country, zip is three ASCII digits, nothing or one space, and two ASCII digits,
  and Country is the first country of the list that "city, Country" contains, case set
  aside. On it the parser returns line as Address, zip as PostalCode, city as City and
  Country as Country, each exactly.
\<close>

theorem parse_address_form:
  assumes line: "44 \<notin> set line" "strip line = line"
    and digits: "\<forall>d \<in> set [d1, d2, d3, d4, d5]. 48 \<le> d \<and> d \<le> 57"
    and sp: "sp = [] \<or> sp = u '' ''"
    and city: "city \<noteq> []" "44 \<notin> set city" "10 \<notin> set city" "strip city = city"
    and country: "first_match db (city @ u '', '' @ country) = Some country"
    and once: "\<not> contains country city"
  shows "parse_address db
           (Some (line @ u '', '' @ [d1, d2, d3] @ sp @ [d4, d5] @ u '' '' @ city @ u '', '' @ country)) =
         Inr [''Address'' \<mapsto> Some line,
              ''PostalCode'' \<mapsto> Some ([d1, d2, d3] @ sp @ [d4, d5]),
              ''City'' \<mapsto> Some city,
              ''Country'' \<mapsto> Some country]"
proof -
  let ?cc = "city @ 44 # 32 # country"
  let ?zip = "d1 # d2 # d3 # sp @ [d4, d5]"
  let ?zipcity = "d1 # d2 # d3 # sp @ d4 # d5 # 32 # city"
  let ?tail = "d1 # d2 # d3 # sp @ d4 # d5 # 32 # ?cc"
  let ?full = "line @ 44 # 32 # ?tail"
  have lit: "u '', '' = [44, 32]" "u '' '' = [32]" "u '','' = [44]"
    by (simp_all add: u_def)
  have "country \<in> set countries"
    using country by (auto simp: first_match_def find_Some_iff)
  then have cs: "country \<noteq> []" "44 \<notin> set country" "10 \<notin> set country" "hd country \<noteq> 32"
    "\<not> isspace (hd country)" "\<not> isspace (last country)"
    using countries_shape by (auto simp: list_all_iff)
  have dg: "is_digit db d1" "is_digit db d2" "is_digit db d3" "is_digit db d4" "is_digit db d5"
    using digits by (simp_all add: is_digit_def)
  have nsp: "\<not> isspace d1" "\<not> isspace d4" "\<not> isspace d5"
    using digits by (auto simp: isspace_def)
  have ncomma: "d1 \<noteq> 44" "d2 \<noteq> 44" "d3 \<noteq> 44" "d4 \<noteq> 44" "d5 \<noteq> 44" "44 \<notin> set sp"
    using digits sp by (auto simp: lit)
  have cty: "\<not> isspace (hd city)" "\<not> isspace (last city)"
    using strip_fixed_ends [OF city(4) city(1)] by simp_all
  have sp32: "isspace 32" "\<not> isspace 44"
    by (simp_all add: isspace_def)

  have "\<not> isspace (hd ?full)"
  proof (cases "line = []")
    case True
    then show ?thesis using sp32 by simp
  next
    case False
    then show ?thesis using strip_fixed_ends(1) [OF line(2)] by simp
  qed
  moreover have "last ?full = last country"
    using cs(1) by simp
  ultimately have s_full: "strip ?full = ?full"
    using cs(6) by (intro strip_id) simp

  have "44 \<notin> set (32 # ?zipcity)"
    using ncomma city(2) by simp
  then have "py_split [44] ((32 # ?zipcity) @ 44 # 32 # country) = (32 # ?zipcity) # py_split [44] (32 # country)"
    by (rule py_split_comma)
  moreover have "py_split [44] (32 # country) = [32 # country]"
    using cs(2) by (intro py_split_no_sep) simp
  moreover have "py_split [44] ?full = line # py_split [44] (32 # ?tail)"
    using line(1) by (rule py_split_comma)
  ultimately have split: "py_split [44] ?full = [line, 32 # ?zipcity, 32 # country]"
    by simp

  have "last ?zipcity = last city"
    using city(1) by simp
  then have "strip ?zipcity = ?zipcity"
    using nsp(1) cty(2) by (intro strip_id) simp
  then have st2: "strip (32 # ?zipcity) = ?zipcity"
    using sp32(1) by (simp add: strip_space)
  have "strip country = country"
    using cs(5,6) by (intro strip_id) simp
  then have st3: "strip (32 # country) = country"
    using sp32(1) by (simp add: strip_space)

  have dw: "dropWhile isspace (32 # ?cc) = ?cc"
    using sp32(1) cty(1) city(1) by (cases city) simp_all
  have tw: "takeWhile (\<lambda>c. c \<noteq> 10) ?cc = ?cc"
    using city(3) cs(3) by (auto simp: takeWhile_eq_all_conv)
  have zm: "zip_match db ?tail = Some (?zip, ?cc)"
    using sp
  proof
    assume "sp = []"
    then show ?thesis
      using dg nsp dw tw by (simp add: zip_match_def zip_code_end_def two_digits_def)
  next
    assume "sp = u '' ''"
    then show ?thesis
      using dg nsp dw tw sp32(1) by (simp add: zip_match_def zip_code_end_def two_digits_def lit)
  qed

  have "last ?zip = d5" by simp
  then have sz: "strip ?zip = ?zip"
    using nsp by (intro strip_id) simp
  have "last ?cc = last country"
    using cs(1) by simp
  moreover have "hd ?cc = hd city"
    using city(1) by simp
  ultimately have scc: "strip ?cc = ?cc"
    using cty(1) cs(6) by (intro strip_id) simp

  have "find (\<lambda>c. contains (str_lower db c) (str_lower db ?cc)) countries = Some country"
    using country by (simp add: first_match_def lit)
  then have det: "detect_country db countries ?cc =
      (Some country, strip (strip_chars (u '', '') (py_replace country [] ?cc)))"
    by (rule detect_country_find)
  have "py_replace country [] ?cc = city @ 44 # py_replace country [] (32 # country)"
    using cs(1,2) once by (rule py_replace_skip)
  then have rep: "py_replace country [] ?cc = city @ [44, 32]"
    using py_replace_space_self [OF cs(1,4)] by simp
  have "hd city \<in> set city" "last city \<in> set city"
    using city(1) by simp_all
  then have "\<not> (hd city \<in> set [44, 32])" "\<not> (last city \<in> set [44, 32])"
    using city(2) cty sp32(1) by auto
  then have "rev (dropWhile (\<lambda>c. c \<in> set [44, 32])
               (rev (dropWhile (\<lambda>c. c \<in> set [44, 32]) (city @ [44, 32])))) = city"
    using city(1) by (intro trim_append_right) simp_all
  then have sc: "strip_chars [44, 32] (city @ [44, 32]) = city"
    by (simp add: strip_chars_def)

  have "parse_address db (Some ?full) =
         Inr [''Address'' \<mapsto> Some line, ''PostalCode'' \<mapsto> Some ?zip,
              ''City'' \<mapsto> Some city, ''Country'' \<mapsto> Some country]"
    using cs(1) city(1) line(2)
    by (simp add: parse_address_def lit(3) s_full split st2 st3 index0_def lit(1) zm sz scc
        det rep sc city(4))
  then show ?thesis
    by (simp add: lit)
qed

theorem parse_address_form_witness:
  "44 \<notin> set (u ''Vodickova 5'') \<and> strip (u ''Vodickova 5'') = u ''Vodickova 5'' \<and>
   (48 :: nat) \<le> 48 \<and> (49 :: nat) \<le> 57 \<and>
   u ''Praha'' \<noteq> [] \<and> 44 \<notin> set (u ''Praha'') \<and> 10 \<notin> set (u ''Praha'') \<and>
   strip (u ''Praha'') = u ''Praha'' \<and>
   first_match latin_tables (u ''Praha'' @ u '', '' @ u ''Ceska republika'') =
     Some (u ''Ceska republika'') \<and>
   \<not> contains (u ''Ceska republika'') (u ''Praha'') \<and>
   parse_address latin_tables
     (Some (u ''Vodickova 5'' @ u '', '' @ [49, 49, 48] @ [] @ [48, 48] @ u '' '' @ u ''Praha'' @
            u '', '' @ u ''Ceska republika'')) =
     Inr [''Address'' \<mapsto> Some (u ''Vodickova 5''),
          ''PostalCode'' \<mapsto> Some ([49, 49, 48] @ [] @ [48, 48]),
          ''City'' \<mapsto> Some (u ''Praha''),
          ''Country'' \<mapsto> Some (u ''Ceska republika'')]"
proof -
  have 1: "44 \<notin> set (u ''Vodickova 5'')" and 2: "strip (u ''Vodickova 5'') = u ''Vodickova 5''"
    by (simp_all add: text_eval)
  have 3: "\<forall>d \<in> set [49, 49, 48, 48, 48 :: nat]. 48 \<le> d \<and> d \<le> 57"
    by simp
  have 4: "[] = [] \<or> [] = u '' ''"
    by simp
  have 5: "u ''Praha'' \<noteq> []" and 6: "44 \<notin> set (u ''Praha'')" and 7: "10 \<notin> set (u ''Praha'')"
    and 8: "strip (u ''Praha'') = u ''Praha''"
    by (simp_all add: text_eval)
  have 9: "first_match latin_tables (u ''Praha'' @ u '', '' @ u ''Ceska republika'') =
     Some (u ''Ceska republika'')"
    by (simp add: first_match_def countries_def latin_tables_def latin_lower_def text_eval)
  have 10: "\<not> contains (u ''Ceska republika'') (u ''Praha'')"
    by (simp add: text_eval)
  show ?thesis
    using parse_address_form [OF 1 2 3 4 5 6 7 8 9 10] 1 2 5 6 7 8 9 10
    by simp
qed

section \<open>The owner table\<close>

text \<open>
  C2, at a table with one row of four columns whose first column reads
  "Meno a priezvisko Jan Novak Datum narodenia 1.1.1980": the label is removed, but the
  marker of line 104 is spelled with U+00E1 and does not occur in this text, so the name
  is not cut at it and the owner's name is "Jan Novak Datum narodenia 1.1.1980".
\<close>

theorem parse_bo_table_keeps_marker:
  "map_sum id (map row_name)
     (parse_bo_table latin_tables
        \<lparr>form_groups = groups,
         bo_table = Some (Some [[[u ''Meno a priezvisko Jan Novak Datum narodenia 1.1.1980''],
                                 c2, c3, c4]])\<rparr>)
   = Inr [Some (u ''Jan Novak Datum narodenia 1.1.1980'')]"
  by (simp add: parse_bo_table_def parse_bo_row_def get_text_def meno_a_priezvisko_def
      datum_narodenia_def index0_def convert_to_english_def is_ascii_def decompose_def
      decompositions_def latin_tables_def text_eval)

section \<open>Extraction\<close>


lemma owner_row_parsed:
  "parse_bo_table latin_tables page_with_owner =
     Inr [\<lparr>row_name = Some (u ''Jan Novak Datum narodenia 1.1.1980''),
           row_date_of_birth = Some (u ''1.1.1980''),
           row_nationality = Some (u ''Slovenska republika''),
           row_address = Some (u ''Hlavna 1, 811 01 Bratislava, Slovenska republika'')\<rparr>]"
  by (simp add: page_with_owner_def owner_row_def parse_bo_table_def parse_bo_row_def
      get_text_def meno_a_priezvisko_def datum_narodenia_def index0_def convert_to_english_def
      is_ascii_def decompose_def decompositions_def latin_tables_def text_eval)

lemma owner_address_parsed:
  "parse_address latin_tables (Some (u ''Hlavna 1, 811 01 Bratislava, Slovenska republika'')) =
     Inr [''Address'' \<mapsto> Some (u ''Hlavna 1''), ''PostalCode'' \<mapsto> Some (u ''811 01''),
          ''City'' \<mapsto> Some (u ''Bratislava''), ''Country'' \<mapsto> Some (u ''Slovenska republika'')]"
  by (simp add: parse_eval text_eval)

lemma demo_scrape:
  "scrape_partner (demo_env f page_with_owner) partner_id = Inr (Some (demo_record partner_id))"
proof -
  have t: "tables (demo_env f page_with_owner) = latin_tables"
    and g: "requests_get (demo_env f page_with_owner) url = Inr (200, u ''<html></html>'')"
    and b: "BeautifulSoup (demo_env f page_with_owner) html = Inr page_with_owner"
    and fg: "form_groups page_with_owner = []" for url html
    by (simp_all add: demo_env_def page_with_owner_def)
  have n: "parse_address latin_tables None = Inr Map.empty"
    by (simp add: parse_address_def)
  show ?thesis
    by (simp add: scrape_partner_def t g b fg owner_row_parsed owner_address_parsed n
        convert_to_english_def demo_record_def)
qed

lemma demo_urls: "partner_url 1 \<noteq> partner_url 2"
  by (simp add: partner_url_def str_int_def str_nat.simps)

lemma demo_run:
  assumes "f = None \<or> f = Some OSError"
  shows "run (demo_env f page_with_owner) (fresh 1 2) =
     (None, \<lparr>start_id = 1, end_id = 2, all_data = [demo_record 1, demo_record 2],
             processed_ids = {partner_url 1, partner_url 2}\<rparr>)"
proof -
  have w: "write_cache (demo_env g page_with_owner) urls = g"
    and o: "write_output (demo_env g page_with_owner) data = None" for g urls data
    by (simp_all add: demo_env_def)
  have r: "[1..2] = [1, 2::int]"
    by (simp add: upto_rec1)
  show ?thesis
    using assms demo_urls
    by (auto simp: run_def r fresh_def run_step_def try_block_def demo_scrape w o Let_def)
qed











section \<open>The crawl loop\<close>

lemma scrape_partner_source_url:
  "scrape_partner e partner_id = Inr (Some r) \<Longrightarrow> source_url r = partner_url partner_id"
  by (auto simp: scrape_partner_def Let_def split: sum.splits prod.splits if_splits)

lemma run_step_cases:
  "run_step e self i = (x, self') \<Longrightarrow>
     self' = self \<or>
     (\<exists>data. scrape_partner e i = Inr (Some data) \<and> partner_url i \<notin> processed_ids self \<and>
        self' = self\<lparr>all_data := all_data self @ [data],
                      processed_ids := insert (partner_url i) (processed_ids self)\<rparr>)"
  by (auto simp: run_step_def try_block_def Let_def
      split: sum.splits option.splits if_splits prod.splits)

lemma run_step_inv: "cache_inv self \<Longrightarrow> cache_inv (snd (run_step e self i))"
proof -
  assume inv: "cache_inv self"
  obtain x self' where r: "run_step e self i = (x, self')" by (cases "run_step e self i")
  from run_step_cases [OF r] show ?thesis
  proof
    assume "self' = self"
    then show ?thesis using inv r by simp
  next
    assume "\<exists>data. scrape_partner e i = Inr (Some data) \<and> partner_url i \<notin> processed_ids self \<and>
        self' = self\<lparr>all_data := all_data self @ [data],
                      processed_ids := insert (partner_url i) (processed_ids self)\<rparr>"
    then obtain data where d: "scrape_partner e i = Inr (Some data)"
      and s: "self' = self\<lparr>all_data := all_data self @ [data],
                      processed_ids := insert (partner_url i) (processed_ids self)\<rparr>"
      by blast
    have "source_url data = partner_url i"
      using d by (rule scrape_partner_source_url)
    then have "cache_inv self'"
      using inv s by (auto simp: cache_inv_def)
    then show ?thesis using r by simp
  qed
qed

lemma run_loop_inv: "cache_inv self \<Longrightarrow> cache_inv (snd (run_loop e self ids))"
proof (induction ids arbitrary: self)
  case Nil
  then show ?case by simp
next
  case (Cons i ids)
  obtain x self' where r: "run_step e self i = (x, self')" by (cases "run_step e self i")
  have inv': "cache_inv self'"
    using run_step_inv [OF Cons.prems, of e i] r by simp
  show ?case
  proof (cases x)
    case None
    then show ?thesis using r Cons.IH [OF inv'] by simp
  next
    case (Some a)
    then show ?thesis using r inv' by simp
  qed
qed

lemma run_step_cached: "cached_with_record old self \<Longrightarrow> cached_with_record old (snd (run_step e self i))"
proof -
  assume inv: "cached_with_record old self"
  obtain x self' where r: "run_step e self i = (x, self')" by (cases "run_step e self i")
  from run_step_cases [OF r] show ?thesis
  proof
    assume "self' = self"
    then show ?thesis using inv r by simp
  next
    assume "\<exists>data. scrape_partner e i = Inr (Some data) \<and> partner_url i \<notin> processed_ids self \<and>
        self' = self\<lparr>all_data := all_data self @ [data],
                      processed_ids := insert (partner_url i) (processed_ids self)\<rparr>"
    then obtain data where d: "scrape_partner e i = Inr (Some data)"
      and s: "self' = self\<lparr>all_data := all_data self @ [data],
                      processed_ids := insert (partner_url i) (processed_ids self)\<rparr>"
      by blast
    have "source_url data = partner_url i"
      using d by (rule scrape_partner_source_url)
    then have "cached_with_record old self'"
      using inv s by (auto simp: cached_with_record_def)
    then show ?thesis using r by simp
  qed
qed

lemma run_loop_cached:
  "cached_with_record old self \<Longrightarrow> cached_with_record old (snd (run_loop e self ids))"
proof (induction ids arbitrary: self)
  case Nil
  then show ?case by simp
next
  case (Cons i ids)
  obtain x self' where r: "run_step e self i = (x, self')" by (cases "run_step e self i")
  have inv': "cached_with_record old self'"
    using run_step_cached [OF Cons.prems, of e i] r by simp
  show ?case
  proof (cases x)
    case None
    then show ?thesis using r Cons.IH [OF inv'] by simp
  next
    case (Some a)
    then show ?thesis using r inv' by simp
  qed
qed

lemma cache_inv_cached: "cache_inv self = cached_with_record {} self"
  by (simp add: cache_inv_def cached_with_record_def)

text \<open>
  C8, as stated: throughout every run, a URL of the cache has a record in the collection.
  The constructor reads the cache file and the output file each on its own; with a cache
  file that lists the URLs of the IDs 1 and 2 and no output file, the run skips both IDs,
  and the cache holds their URLs while the collection is empty.
\<close>

theorem run_cache_without_record:
  "partner_url 1 \<in> processed_ids
      (snd (run (demo_env None page_with_owner) (init 1 2 None (Some [partner_url 1, partner_url 2])))) \<and>
   all_data (snd (run (demo_env None page_with_owner)
                   (init 1 2 None (Some [partner_url 1, partner_url 2])))) = [] \<and>
   \<not> cache_inv (snd (run (demo_env None page_with_owner)
                       (init 1 2 None (Some [partner_url 1, partner_url 2]))))"
proof -
  have r: "[1..2] = [1, 2::int]"
    by (simp add: upto_rec1)
  have "run (demo_env None page_with_owner) (init 1 2 None (Some [partner_url 1, partner_url 2])) =
      (None, init 1 2 None (Some [partner_url 1, partner_url 2]))"
    by (simp add: run_def r init_def run_step_def)
  then show ?thesis
    by (auto simp: init_def cache_inv_def)
qed

text \<open>
  C8, amended: a pass of the loop either leaves the collection and the cache as they are,
  or appends the record of this ID's URL to the collection and adds that URL to the cache,
  both in the same pass; it leaves them as they are when extraction returns None or
  raises. Hence after every number of passes each URL of the cache was in the cache when
  the loop started or has a record in the collection; and if every URL of the cache has a
  record when the loop starts, as it has when neither file exists or when the URLs of
  the cache file are among the source URLs of the output file, this holds after every
  number of passes.
\<close>

theorem run_cache_lockstep:
  "(snd (run_step e self i) = self \<or>
    (\<exists>data. scrape_partner e i = Inr (Some data) \<and> source_url data = partner_url i \<and>
       partner_url i \<notin> processed_ids self \<and>
       snd (run_step e self i) =
         self\<lparr>all_data := all_data self @ [data],
               processed_ids := insert (partner_url i) (processed_ids self)\<rparr>)) \<and>
   (scrape_partner e i = Inr None \<or> (\<exists>x. scrape_partner e i = Inl x) \<longrightarrow>
      snd (run_step e self i) = self) \<and>
   (cache_inv self \<longrightarrow> cache_inv (snd (run_loop e self ids))) \<and>
   cached_with_record (processed_ids self) (snd (run_loop e self ids)) \<and>
   cache_inv (init a b None None) \<and>
   (set urls \<subseteq> source_url ` set data' \<longrightarrow>
      cache_inv (snd (run e (init a b (Some data') (Some urls)))))"
proof (intro conjI impI)
  obtain x self' where r: "run_step e self i = (x, self')" by (cases "run_step e self i")
  show "snd (run_step e self i) = self \<or>
    (\<exists>data. scrape_partner e i = Inr (Some data) \<and> source_url data = partner_url i \<and>
       partner_url i \<notin> processed_ids self \<and>
       snd (run_step e self i) =
         self\<lparr>all_data := all_data self @ [data],
               processed_ids := insert (partner_url i) (processed_ids self)\<rparr>)"
    using run_step_cases [OF r] r scrape_partner_source_url [of e i] by auto
next
  assume "scrape_partner e i = Inr None \<or> (\<exists>x. scrape_partner e i = Inl x)"
  then show "snd (run_step e self i) = self"
    by (auto simp: run_step_def try_block_def Let_def)
next
  assume "cache_inv self"
  then show "cache_inv (snd (run_loop e self ids))" by (rule run_loop_inv)
next
  have "cached_with_record (processed_ids self) self"
    by (simp add: cached_with_record_def)
  then show "cached_with_record (processed_ids self) (snd (run_loop e self ids))"
    by (rule run_loop_cached)
next
  show "cache_inv (init a b None None)"
    by (simp add: cache_inv_def init_def)
next
  assume "set urls \<subseteq> source_url ` set data'"
  then have "cache_inv (init a b (Some data') (Some urls))"
    by (auto simp: cache_inv_def init_def)
  then show "cache_inv (snd (run e (init a b (Some data') (Some urls))))"
    unfolding run_def by (rule run_loop_inv)
qed

theorem run_cache_lockstep_witness:
  "init 1 2 None None = fresh 1 2 \<and> cache_inv (fresh 1 2) \<and>
   processed_ids (snd (run (demo_env None page_with_owner) (fresh 1 2))) =
     {partner_url 1, partner_url 2} \<and>
   cache_inv (snd (run (demo_env None page_with_owner) (fresh 1 2))) \<and>
   snd (run_step (demo_env None page_without_table) (fresh 1 2) 1) = fresh 1 2 \<and>
   set [partner_url 1] \<subseteq> source_url ` set [demo_record 1] \<and>
   cache_inv (snd (run (demo_env None page_with_owner)
                    (init 1 2 (Some [demo_record 1]) (Some [partner_url 1]))))"
proof -
  have f: "init 1 2 None None = fresh 1 2"
    by (simp add: init_def fresh_def)
  have i: "cache_inv (fresh 1 2)"
    by (simp add: cache_inv_def fresh_def)
  have "cache_inv (snd (run (demo_env None page_with_owner) (fresh 1 2)))"
    using run_cache_lockstep [of "demo_env None page_with_owner" "fresh 1 2" 1 "[1..2]"] i
    by (simp add: run_def fresh_def)
  moreover have "scrape_partner (demo_env None page_without_table) 1 = Inr None"
    by (simp add: scrape_partner_def demo_env_def parse_bo_table_def page_without_table_def)
  then have "snd (run_step (demo_env None page_without_table) (fresh 1 2) 1) = fresh 1 2"
    using run_cache_lockstep [of "demo_env None page_without_table" "fresh 1 2" 1 "[]"]
    by simp
  moreover have s: "set [partner_url 1] \<subseteq> source_url ` set [demo_record 1]"
    by (simp add: demo_record_def)
  then have "cache_inv (snd (run (demo_env None page_with_owner)
                    (init 1 2 (Some [demo_record 1]) (Some [partner_url 1]))))"
    using run_cache_lockstep [of "demo_env None page_with_owner" "fresh 1 2" 1 "[]" 1 2
        "[partner_url 1]" "[demo_record 1]"]
    by simp
  ultimately show ?thesis
    using f i s by (simp add: demo_run)
qed

text \<open>
  C9, as stated: a failure to write the cache or the output file leaves the loop and stops
  the run. With a cache write that raises OSError on every call, the run over the IDs 1
  and 2 ends without an exception and has processed both IDs.
\<close>

theorem run_survives_write_failure:
  "(\<forall>urls. write_cache (demo_env (Some OSError) page_with_owner) urls = Some OSError) \<and>
   fst (run (demo_env (Some OSError) page_with_owner) (fresh 1 2)) = None \<and>
   map source_url (all_data (snd (run (demo_env (Some OSError) page_with_owner) (fresh 1 2)))) =
     [partner_url 1, partner_url 2]"
  by (simp add: demo_run) (simp add: demo_env_def demo_record_def)

text \<open>
  C9, amended: an exception of class Exception raised by the write of the cache file or
  of the output file is caught at the end of that ID's pass; the loop goes on with the
  next ID, and the record and its URL stay in the collection and in the cache.
\<close>

theorem run_recovers_write_failure:
  assumes "partner_url i \<notin> processed_ids self"
    and "scrape_partner e i = Inr (Some data)"
    and "write_cache e (insert (partner_url i) (processed_ids self)) = Some x \<or>
         (write_cache e (insert (partner_url i) (processed_ids self)) = None \<and>
          write_output e (all_data self @ [data]) = Some x)"
    and "is_Exception x"
  shows "run_loop e self (i # ids) =
         run_loop e (self\<lparr>all_data := all_data self @ [data],
                          processed_ids := insert (partner_url i) (processed_ids self)\<rparr>) ids"
  using assms by (auto simp: run_step_def try_block_def Let_def)

theorem run_recovers_write_failure_witness:
  "partner_url 1 \<notin> processed_ids (fresh 1 2) \<and>
   scrape_partner (demo_env (Some OSError) page_with_owner) 1 = Inr (Some (demo_record 1)) \<and>
   write_cache (demo_env (Some OSError) page_with_owner)
     (insert (partner_url 1) (processed_ids (fresh 1 2))) = Some OSError \<and>
   is_Exception OSError \<and>
   run_loop (demo_env (Some OSError) page_with_owner) (fresh 1 2) [1, 2] =
     run_loop (demo_env (Some OSError) page_with_owner)
       ((fresh 1 2)\<lparr>all_data := all_data (fresh 1 2) @ [demo_record 1],
                    processed_ids := insert (partner_url 1) (processed_ids (fresh 1 2))\<rparr>) [2]"
proof -
  let ?e = "demo_env (Some OSError) page_with_owner"
  have 1: "partner_url 1 \<notin> processed_ids (fresh 1 2)"
    by (simp add: fresh_def)
  have 2: "scrape_partner ?e 1 = Inr (Some (demo_record 1))"
    by (rule demo_scrape)
  have 3: "write_cache ?e (insert (partner_url 1) (processed_ids (fresh 1 2))) = Some OSError \<or>
         (write_cache ?e (insert (partner_url 1) (processed_ids (fresh 1 2))) = None \<and>
          write_output ?e (all_data (fresh 1 2) @ [demo_record 1]) = Some OSError)"
    by (simp add: demo_env_def)
  have 4: "is_Exception OSError" by simp
  show ?thesis
    using run_recovers_write_failure [OF 1 2 3 4, of "[2]"] 1 2
    by (simp add: demo_env_def)
qed

end
